theory Spec2Isabelle
  imports Main
begin

section \<open>Strings\<close>

text \<open>
  A JavaScript string is a sequence of code units. The model uses \<open>string\<close>, whose
  characters are the code units \<open>0\<close> to \<open>255\<close> (Latin-1); every character that the
  validator's expressions name is in that range.
\<close>

definition code :: "char \<Rightarrow> nat" where
  "code c = of_char c"

definition in_range :: "char \<Rightarrow> char \<Rightarrow> char \<Rightarrow> bool" where
  "in_range lo hi c = (code lo \<le> code c \<and> code c \<le> code hi)"

text \<open>White space as \<open>String.prototype.trim\<close> and the class \<open>\s\<close> see it: tab, line feed,
  vertical tab, form feed, carriage return, space and no-break space.\<close>

definition isWhiteSpace :: "char \<Rightarrow> bool" where
  "isWhiteSpace c = (code c \<in> {9, 10, 11, 12, 13, 32, 160})"

definition trim :: "string \<Rightarrow> string" where
  "trim s = rev (dropWhile isWhiteSpace (rev (dropWhile isWhiteSpace s)))"

text \<open>\<open>toLowerCase\<close> on one code unit: the letters \<open>A\<close> to \<open>Z\<close> and the Latin-1 capitals
  (\<open>0xC0\<close> to \<open>0xDE\<close> without the multiplication sign \<open>0xD7\<close>) move up by 32.\<close>

definition isUpper :: "char \<Rightarrow> bool" where
  "isUpper c = ((65 \<le> code c \<and> code c \<le> 90) \<or> (192 \<le> code c \<and> code c \<le> 222 \<and> code c \<noteq> 215))"

definition toLowerChar :: "char \<Rightarrow> char" where
  "toLowerChar c = (if isUpper c then char_of (code c + 32) else c)"

definition toLowerCase :: "string \<Rightarrow> string" where
  "toLowerCase s = map toLowerChar s"

definition includesChar :: "string \<Rightarrow> char \<Rightarrow> bool" where
  "includesChar s c = (c \<in> set s)"

definition startsWithChar :: "string \<Rightarrow> char \<Rightarrow> bool" where
  "startsWithChar s c = (case s of [] \<Rightarrow> False | d # _ \<Rightarrow> d = c)"

section \<open>Regular expressions\<close>

text \<open>
  The validator's patterns are regular: character classes, concatenation, alternation,
  \<open>?\<close>, \<open>*\<close>, \<open>+\<close> and bounded repetition. \<open>test\<close> on an expression anchored
  by \<open>^\<close> and \<open>$\<close> (no \<open>m\<close> flag) asks whether the whole string is in the language;
  \<open>test\<close> on an expression without anchors asks whether some substring is.
\<close>

datatype rexp =
    Zero
  | One
  | Cls "char \<Rightarrow> bool"
  | Alt rexp rexp
  | Seq rexp rexp
  | Star rexp

definition Opt :: "rexp \<Rightarrow> rexp" where
  "Opt r = Alt One r"

definition Plus :: "rexp \<Rightarrow> rexp" where
  "Plus r = Seq r (Star r)"

fun Times :: "nat \<Rightarrow> rexp \<Rightarrow> rexp" where
  "Times n r = (if n = 0 then One else Seq r (Times (n - 1) r))"

fun Upto :: "nat \<Rightarrow> rexp \<Rightarrow> rexp" where
  "Upto n r = (if n = 0 then One else Alt One (Seq r (Upto (n - 1) r)))"

definition Lit :: "char \<Rightarrow> rexp" where
  "Lit c = Cls (\<lambda>d. d = c)"

text \<open>A literal under the \<open>i\<close> flag: the two cases of an ASCII letter.\<close>

definition LitI :: "char \<Rightarrow> rexp" where
  "LitI c = Cls (\<lambda>d. toLowerChar d = c \<and> code d < 128 \<or> d = c)"

fun Str :: "string \<Rightarrow> rexp" where
  "Str [] = One"
| "Str (c # cs) = Seq (Lit c) (Str cs)"

fun StrI :: "string \<Rightarrow> rexp" where
  "StrI [] = One"
| "StrI (c # cs) = Seq (LitI c) (StrI cs)"

fun nullable :: "rexp \<Rightarrow> bool" where
  "nullable Zero = False"
| "nullable One = True"
| "nullable (Cls p) = False"
| "nullable (Alt r s) = (nullable r \<or> nullable s)"
| "nullable (Seq r s) = (nullable r \<and> nullable s)"
| "nullable (Star r) = True"

fun alt :: "rexp \<Rightarrow> rexp \<Rightarrow> rexp" where
  "alt Zero r = r"
| "alt r Zero = r"
| "alt r s = Alt r s"

fun seq :: "rexp \<Rightarrow> rexp \<Rightarrow> rexp" where
  "seq Zero r = Zero"
| "seq r Zero = Zero"
| "seq One r = r"
| "seq r One = r"
| "seq r s = Seq r s"

fun deriv :: "char \<Rightarrow> rexp \<Rightarrow> rexp" where
  "deriv c Zero = Zero"
| "deriv c One = Zero"
| "deriv c (Cls p) = (if p c then One else Zero)"
| "deriv c (Alt r s) = alt (deriv c r) (deriv c s)"
| "deriv c (Seq r s) =
     (if nullable r then alt (seq (deriv c r) s) (deriv c s) else seq (deriv c r) s)"
| "deriv c (Star r) = seq (deriv c r) (Star r)"

fun derivs :: "rexp \<Rightarrow> string \<Rightarrow> rexp" where
  "derivs r [] = r"
| "derivs r (c # cs) = derivs (deriv c r) cs"

text \<open>\<open>/^r$/.test(s)\<close>\<close>

definition test_anchored :: "rexp \<Rightarrow> string \<Rightarrow> bool" where
  "test_anchored r s = nullable (derivs r s)"

text \<open>\<open>/r/.test(s)\<close>\<close>

definition test_search :: "rexp \<Rightarrow> string \<Rightarrow> bool" where
  "test_search r s = test_anchored (Seq (Star (Cls (\<lambda>c. True))) (Seq r (Star (Cls (\<lambda>c. True))))) s"

section \<open>Entry validator (validators.js)\<close>

definition alnum :: "char \<Rightarrow> bool" where
  "alnum c = (in_range CHR ''a'' CHR ''z'' c \<or> in_range CHR ''A'' CHR ''Z'' c \<or> in_range CHR ''0'' CHR ''9'' c)"

definition alnumHyphen :: "char \<Rightarrow> bool" where
  "alnumHyphen c = (alnum c \<or> c = CHR ''-'')"

text \<open>The local-part class: letters, digits and the listed marks, the apostrophe (0x27) and
  the backquote (0x60) among them.\<close>

definition localChar :: "char \<Rightarrow> bool" where
  "localChar c = (alnum c \<or> c \<in> set ''.!#$%&*+/=?^_{|}~-'' \<or> c = CHR 0x27 \<or> c = CHR 0x60)"

definition wordChar :: "char \<Rightarrow> bool" where
  "wordChar c = (alnum c \<or> c = CHR ''_'')"

definition hexDigit :: "char \<Rightarrow> bool" where
  "hexDigit c = (in_range CHR ''0'' CHR ''9'' c \<or> in_range CHR ''a'' CHR ''f'' c \<or> in_range CHR ''A'' CHR ''F'' c)"

text \<open>\<open>[a-zA-Z0-9](?:[a-zA-Z0-9-]{0,61}[a-zA-Z0-9])?\<close>\<close>

definition label :: rexp where
  "label = Seq (Cls alnum) (Opt (Seq (Upto 61 (Cls alnumHyphen)) (Cls alnum)))"

text \<open>A label followed by \<open>(\.label)*\<close>\<close>

definition labels :: rexp where
  "labels = Seq label (Star (Seq (Lit CHR ''.'') label))"

definition emailRegex :: rexp where
  "emailRegex = Seq (Plus (Cls localChar)) (Seq (Lit CHR ''@'') labels)"

definition isValidEmail :: "string \<Rightarrow> bool" where
  "isValidEmail email = test_anchored emailRegex email"

definition domainRegex :: rexp where
  "domainRegex = labels"

definition isValidDomain :: "string \<Rightarrow> bool" where
  "isValidDomain domain =
     (let cleanDomain = (if startsWithChar domain CHR ''@'' then tl domain else domain)
      in test_anchored domainRegex cleanDomain \<and> length cleanDomain \<le> 253)"

text \<open>\<open>25[0-5]|2[0-4][0-9]|[01]?[0-9][0-9]?\<close>\<close>

definition octet :: rexp where
  "octet =
     Alt (Seq (Lit CHR ''2'') (Seq (Lit CHR ''5'') (Cls (in_range CHR ''0'' CHR ''5''))))
    (Alt (Seq (Lit CHR ''2'') (Seq (Cls (in_range CHR ''0'' CHR ''4'')) (Cls (in_range CHR ''0'' CHR ''9''))))
         (Seq (Opt (Cls (\<lambda>c. c = CHR ''0'' \<or> c = CHR ''1'')))
              (Seq (Cls (in_range CHR ''0'' CHR ''9'')) (Opt (Cls (in_range CHR ''0'' CHR ''9''))))))"

definition ipv4Regex :: rexp where
  "ipv4Regex = Seq (Times 3 (Seq octet (Lit CHR ''.''))) octet"

definition isValidIPv4 :: "string \<Rightarrow> bool" where
  "isValidIPv4 ip = test_anchored ipv4Regex ip"

text \<open>\<open>[0-9a-fA-F]{1,4}\<close>\<close>

definition hexGroup :: rexp where
  "hexGroup = Seq (Cls hexDigit) (Upto 3 (Cls hexDigit))"

definition ipv6Regex :: rexp where
  "ipv6Regex =
     Alt (Seq (Times 7 (Seq hexGroup (Lit CHR '':''))) hexGroup)
    (Alt (Str ''::1'') (Str ''::''))"

definition isValidIPv6 :: "string \<Rightarrow> bool" where
  "isValidIPv6 ip = test_anchored ipv6Regex ip"

definition isValidIP :: "string \<Rightarrow> bool" where
  "isValidIP ip = (isValidIPv4 ip \<or> isValidIPv6 ip)"

definition wildcardRegex :: rexp where
  "wildcardRegex =
     Alt (Seq (Opt (Str ''*.'')) labels)
         (Seq (Plus (Cls localChar)) (Seq (Lit CHR ''@'') (Seq (Opt (Str ''*.'')) labels)))"

definition isValidWildcard :: "string \<Rightarrow> bool" where
  "isValidWildcard pattern = test_anchored wildcardRegex pattern"

text \<open>The argument is a string; the empty string is the one falsy string.\<close>

definition normalizeEntry :: "string \<Rightarrow> string" where
  "normalizeEntry entry =
     (if entry = [] then []
      else let normalized = toLowerCase (trim entry) in
        if includesChar normalized CHR ''@'' \<and> \<not> startsWithChar normalized CHR ''@'' then normalized
        else if includesChar normalized CHR ''.'' \<and> \<not> includesChar normalized CHR ''@'' then
          (if \<not> startsWithChar normalized CHR ''@'' then CHR ''@'' # normalized else normalized)
        else normalized)"

definition dangerousPatterns :: "rexp list" where
  "dangerousPatterns =
    [ StrI ''<script'',
      StrI ''javascript:'',
      Seq (StrI ''on'') (Seq (Plus (Cls wordChar)) (Seq (Star (Cls isWhiteSpace)) (Lit CHR ''=''))),
      Seq (StrI ''eval'') (Seq (Star (Cls isWhiteSpace)) (Lit CHR ''('')),
      Seq (StrI ''expression'') (Seq (Star (Cls isWhiteSpace)) (Lit CHR ''('')),
      Seq (StrI ''url'') (Seq (Star (Cls isWhiteSpace)) (Lit CHR ''('')),
      StrI ''@import'',
      StrI ''<iframe'',
      StrI ''<object'',
      StrI ''<embed'' ]"

record validation =
  isValid :: bool
  errors :: "string list"
  normalized :: "string option"

text \<open>The loop over the dangerous patterns: one error at the first pattern that matches,
  then \<open>break\<close>.\<close>

fun checkDangerous :: "rexp list \<Rightarrow> string \<Rightarrow> string list \<Rightarrow> string list" where
  "checkDangerous [] n errs = errs"
| "checkDangerous (pattern # rest) n errs =
     (if test_search pattern n then errs @ [''Entry contains potentially dangerous content'']
      else checkDangerous rest n errs)"

text \<open>The cascade under the comment ``Validate based on entry type''.\<close>

definition checkEntryType :: "string \<Rightarrow> string list \<Rightarrow> string list" where
  "checkEntryType n errs =
     (if includesChar n CHR ''@'' then
        (if \<not> isValidEmail n then errs @ [''Invalid email address format''] else errs)
      else if startsWithChar n CHR ''@'' then
        (if \<not> isValidDomain n then errs @ [''Invalid domain format''] else errs)
      else if includesChar n CHR ''*'' then
        (if \<not> isValidWildcard n then errs @ [''Invalid wildcard pattern''] else errs)
      else if isValidIP n then errs
      else
        (let domainWithAt = CHR ''@'' # n in
         if isValidDomain domainWithAt then errs
         else errs @ [''Invalid entry format. Must be email, domain, IP address, or wildcard pattern'']))"

definition validateSpamEntry :: "string \<Rightarrow> validation" where
  "validateSpamEntry entry =
     (if entry = [] then \<lparr>isValid = False, errors = [''Entry is required''], normalized = None\<rparr>
      else let n = normalizeEntry entry in
        if length n = 0 then \<lparr>isValid = False, errors = [''Entry cannot be empty''], normalized = None\<rparr>
        else if length n > 255 then
          \<lparr>isValid = False, errors = [''Entry is too long (maximum 255 characters)''], normalized = None\<rparr>
        else let errs = checkEntryType n (checkDangerous dangerousPatterns n [])
          in \<lparr>isValid = (length errs = 0), errors = errs, normalized = Some n\<rparr>)"


text \<open>The kind of an entry is the branch of the cascade that the validator takes for its
  normalized text, named as the comments of \<open>validateSpamEntry\<close> name them.\<close>

datatype kind = Email | Domain | Wildcard | IPAddress

definition entryKind :: "string \<Rightarrow> kind" where
  "entryKind n =
     (if includesChar n CHR ''@'' then Email
      else if startsWithChar n CHR ''@'' then Domain
      else if includesChar n CHR ''*'' then Wildcard
      else if isValidIP n then IPAddress
      else Domain)"

definition classifiedAs :: "string \<Rightarrow> kind \<Rightarrow> bool" where
  "classifiedAs entry k =
     (isValid (validateSpamEntry entry) \<and> entryKind (normalizeEntry entry) = k)"


section \<open>What the expressions mean\<close>

text \<open>The set of strings that an expression matches as a whole; \<open>test_anchored\<close> decides
  membership in it (shown below), by taking the expression's derivative character by
  character.\<close>

definition conc :: "string set \<Rightarrow> string set \<Rightarrow> string set" where
  "conc A B = {u @ v | u v. u \<in> A \<and> v \<in> B}"

inductive_set star :: "string set \<Rightarrow> string set" for A :: "string set" where
  star_empty: "[] \<in> star A"
| star_more: "u \<in> A \<Longrightarrow> v \<in> star A \<Longrightarrow> u @ v \<in> star A"

fun lang :: "rexp \<Rightarrow> string set" where
  "lang Zero = {}"
| "lang One = {[]}"
| "lang (Cls p) = {[c] | c. p c}"
| "lang (Alt r s) = lang r \<union> lang s"
| "lang (Seq r s) = conc (lang r) (lang s)"
| "lang (Star r) = star (lang r)"

text \<open>The strings of a set that start with \<open>c\<close>, without that character.\<close>

definition after :: "char \<Rightarrow> string set \<Rightarrow> string set" where
  "after c A = {w. c # w \<in> A}"

text \<open>Every character class of an expression lies within \<open>P\<close>.\<close>

fun classes_within :: "(char \<Rightarrow> bool) \<Rightarrow> rexp \<Rightarrow> bool" where
  "classes_within P Zero = True"
| "classes_within P One = True"
| "classes_within P (Cls p) = (\<forall>c. p c \<longrightarrow> P c)"
| "classes_within P (Alt r s) = (classes_within P r \<and> classes_within P s)"
| "classes_within P (Seq r s) = (classes_within P r \<and> classes_within P s)"
| "classes_within P (Star r) = classes_within P r"

text \<open>The characters of a dotted quad.\<close>

definition ipChar :: "char \<Rightarrow> bool" where
  "ipChar c = (in_range CHR ''0'' CHR ''9'' c \<or> c = CHR ''.'')"


section \<open>Responses, logging and outcomes of calls\<close>

text \<open>
  A handler answers with \<open>res.status(code).json({status, message, ...})\<close>; the field
  \<open>status\<close> is \<open>'success'\<close> in the answers with code 200 and \<open>'error'\<close> in all others, so
  the model keeps the code, the message and the remaining fields.
\<close>

datatype listType = Whitelist | Blacklist

datatype action = Add | Remove

datatype bulkResult = BulkResult (br_action: action) (br_listType: listType) (br_entry: string)

datatype bulkError =
  BulkError (be_entry: string) (be_error: string) (be_details: "string list option")

datatype body =
    NoBody
  | TokenBody string string
  | ErrorsBody "string list"
  | DetailsBody "string list"
  | AdapterErrorBody "string option"
  | EntryBody string listType int
  | BulkBody "bulkResult list" "bulkError list"

datatype response = Json (code_of: nat) (message_of: string) (body_of: body)

datatype level = Info | Warn | Error

datatype logEntry = Log level string "(string \<times> string) list"

text \<open>A call either returns or throws; the handlers catch what is thrown.\<close>

datatype 'r outcome = Returns 'r | Throws string

section \<open>Tokens (routes/auth.js and middleware/auth.js)\<close>

datatype payload =
  Payload (p_email: string) (p_mailbox: string) (p_type: string) (p_iat: int) (p_exp: int)

text \<open>
  The library \<open>jsonwebtoken\<close> is a parameter: \<open>sign\<close> gives the token of a payload, and
  \<open>verify\<close>, at a reading of the clock, gives the payload of a token or throws (\<open>None\<close>).
\<close>

record jwt =
  sign :: "payload \<Rightarrow> string"
  verify :: "string \<Rightarrow> int \<Rightarrow> payload option"

datatype tokenData =
  TokenData (td_email: string) (td_mailbox: string) (createdAt: int) (expiresAt: int)

datatype user = User (u_email: string) (u_mailbox: string) (u_type: string)

text \<open>
  The two modules each hold a map of their own, both named \<open>tokenStore\<close>. The state of the
  server has both, and the lines that the logger was given. Times are milliseconds; a
  handler reads the clock several times, \<open>clk k\<close> is its reading number \<open>k\<close>.
\<close>

record server =
  routesTokenStore :: "string \<rightharpoonup> tokenData"
  middlewareTokenStore :: "string \<rightharpoonup> tokenData"
  logged :: "logEntry list"

definition logTo :: "level \<Rightarrow> string \<Rightarrow> (string \<times> string) list \<Rightarrow> server \<Rightarrow> server" where
  "logTo lv msg meta s = s\<lparr>logged := logged s @ [Log lv msg meta]\<rparr>"

definition day_ms :: int where
  "day_ms = 24 * 60 * 60 * 1000"

definition generateToken :: "jwt \<Rightarrow> int \<Rightarrow> int \<Rightarrow> string \<Rightarrow> string \<Rightarrow> string" where
  "generateToken J t_iat t_exp email mailbox =
     sign J (Payload email mailbox ''mail_user'' (t_iat div 1000) (t_exp div 1000 + 24 * 60 * 60))"

text \<open>\<open>POST /verify-plesk-session\<close>: \<open>verrs\<close> is the array of \<open>validationResult(req)\<close>,
  \<open>isValidSession\<close> the outcome of \<open>pleskAdapter.verifyPleskSession\<close>.\<close>

definition verifyPleskSessionHandler ::
  "jwt \<Rightarrow> (nat \<Rightarrow> int) \<Rightarrow> string list \<Rightarrow> bool outcome \<Rightarrow> string \<Rightarrow> server \<Rightarrow> response \<times> server" where
  "verifyPleskSessionHandler J clk verrs isValidSession mailbox s =
     (if verrs \<noteq> [] then (Json 400 ''Validation failed'' (ErrorsBody verrs), s)
      else case isValidSession of
        Throws e \<Rightarrow>
          (Json 500 ''Authentication failed'' NoBody,
           logTo Error ''Plesk session verification failed'' [] s)
      | Returns ok \<Rightarrow>
          if \<not> ok then (Json 401 ''Invalid session or insufficient permissions'' NoBody, s)
          else
            let token = generateToken J (clk 0) (clk 1) mailbox mailbox;
                s1 = s\<lparr>routesTokenStore := (routesTokenStore s)
                        (token \<mapsto> TokenData mailbox mailbox (clk 2) (clk 3 + day_ms))\<rparr>
            in (Json 200 ''Authentication successful'' (TokenBody token ''24h''),
                logTo Info ''Plesk session verified successfully'' [(''mailbox'', mailbox)] s1))"

text \<open>\<open>POST /verify-mailbox\<close>: \<open>isOwner\<close> is the outcome of the IMAP handshake.\<close>

definition verifyMailboxHandler ::
  "jwt \<Rightarrow> (nat \<Rightarrow> int) \<Rightarrow> string list \<Rightarrow> bool outcome \<Rightarrow> string \<Rightarrow> string \<Rightarrow> server \<Rightarrow> response \<times> server" where
  "verifyMailboxHandler J clk verrs isOwner email mailbox s =
     (if verrs \<noteq> [] then (Json 400 ''Validation failed'' (ErrorsBody verrs), s)
      else if email \<noteq> mailbox then (Json 400 ''Email and mailbox must match'' NoBody, s)
      else case isOwner of
        Throws e \<Rightarrow>
          (Json 500 ''Authentication failed'' NoBody, logTo Error ''Mailbox verification failed'' [] s)
      | Returns ok \<Rightarrow>
          if \<not> ok then (Json 401 ''Invalid credentials or mailbox not accessible'' NoBody, s)
          else
            let token = generateToken J (clk 0) (clk 1) email mailbox;
                s1 = s\<lparr>routesTokenStore := (routesTokenStore s)
                        (token \<mapsto> TokenData email mailbox (clk 2) (clk 3 + day_ms))\<rparr>
            in (Json 200 ''Authentication successful'' (TokenBody token ''24h''),
                logTo Info ''Mailbox ownership verified via IMAP''
                  [(''email'', email), (''mailbox'', mailbox)] s1))"

text \<open>\<open>POST /refresh\<close>. The handler does not look at \<open>validationResult\<close>.\<close>

definition refreshHandler ::
  "jwt \<Rightarrow> (nat \<Rightarrow> int) \<Rightarrow> string \<Rightarrow> server \<Rightarrow> response \<times> server" where
  "refreshHandler J clk token s =
     (case routesTokenStore s token of
        None \<Rightarrow>
          (Json 401 ''Invalid or expired token'' NoBody,
           s\<lparr>routesTokenStore := (routesTokenStore s)(token := None)\<rparr>)
      | Some td \<Rightarrow>
          if expiresAt td < clk 0 then
            (Json 401 ''Invalid or expired token'' NoBody,
             s\<lparr>routesTokenStore := (routesTokenStore s)(token := None)\<rparr>)
          else
            let newToken = generateToken J (clk 1) (clk 2) (td_email td) (td_mailbox td);
                store1 = (routesTokenStore s)(token := None);
                store2 = store1(newToken \<mapsto>
                           TokenData (td_email td) (td_mailbox td) (clk 3) (clk 4 + day_ms))
            in (Json 200 ''Token refreshed successfully'' (TokenBody newToken ''24h''),
                s\<lparr>routesTokenStore := store2\<rparr>))"

text \<open>\<open>POST /logout\<close>\<close>

definition logoutHandler :: "string \<Rightarrow> server \<Rightarrow> response \<times> server" where
  "logoutHandler token s =
     (case routesTokenStore s token of
        None \<Rightarrow> (Json 200 ''Logged out successfully'' NoBody, s)
      | Some td \<Rightarrow>
          (Json 200 ''Logged out successfully'' NoBody,
           logTo Info ''User logged out'' [(''email'', td_email td)]
             (s\<lparr>routesTokenStore := (routesTokenStore s)(token := None)\<rparr>)))"

text \<open>\<open>String.prototype.split\<close> on one separator character.\<close>

fun splitString :: "char \<Rightarrow> string \<Rightarrow> string list" where
  "splitString sep [] = [] # []"
| "splitString sep (c # cs) =
     (if c = sep then [] # splitString sep cs
      else case splitString sep cs of
             [] \<Rightarrow> [c] # []
           | w # ws \<Rightarrow> (c # w) # ws)"

text \<open>\<open>authHeader && authHeader.split(' ')[1]\<close>: \<open>None\<close> stands for a falsy value (no header,
  an empty header, no second part, an empty second part), which \<open>!token\<close> rejects.\<close>

definition bearerToken :: "string option \<Rightarrow> string option" where
  "bearerToken authHeader =
     (case authHeader of
        None \<Rightarrow> None
      | Some h \<Rightarrow>
          (if h = [] then None
           else (case splitString CHR '' '' h of
                   _ # t # _ \<Rightarrow> (if t = [] then None else Some t)
                 | _ \<Rightarrow> None)))"

datatype authResult = Reply response | Next user

text \<open>The middleware of \<open>middleware/auth.js\<close>; it reads and deletes in the map of its own
  module.\<close>

definition authenticateToken ::
  "jwt \<Rightarrow> (nat \<Rightarrow> int) \<Rightarrow> string option \<Rightarrow> server \<Rightarrow> authResult \<times> server" where
  "authenticateToken J clk authHeader s =
     (case bearerToken authHeader of
        None \<Rightarrow> (Reply (Json 401 ''Access token required'' NoBody), s)
      | Some token \<Rightarrow>
          (case verify J token (clk 0) of
             None \<Rightarrow>
               (Reply (Json 403 ''Invalid token'' NoBody), logTo Warn ''Invalid token provided'' [] s)
           | Some decoded \<Rightarrow>
               (case middlewareTokenStore s token of
                  None \<Rightarrow>
                    (Reply (Json 401 ''Token expired or invalid'' NoBody),
                     s\<lparr>middlewareTokenStore := (middlewareTokenStore s)(token := None)\<rparr>)
                | Some td \<Rightarrow>
                    if expiresAt td < clk 1 then
                      (Reply (Json 401 ''Token expired or invalid'' NoBody),
                       s\<lparr>middlewareTokenStore := (middlewareTokenStore s)(token := None)\<rparr>)
                    else (Next (User (p_email decoded) (p_mailbox decoded) (p_type decoded)), s))))"

text \<open>The states of the server: it starts with both maps empty, and each request runs one of
  the handlers or the middleware.\<close>

definition initial :: server where
  "initial = \<lparr>routesTokenStore = Map.empty, middlewareTokenStore = Map.empty, logged = []\<rparr>"

inductive reachable :: "jwt \<Rightarrow> server \<Rightarrow> bool" for J :: jwt where
  start: "reachable J initial"
| plesk: "reachable J s \<Longrightarrow>
     reachable J (snd (verifyPleskSessionHandler J clk verrs isValidSession mailbox s))"
| imap: "reachable J s \<Longrightarrow>
     reachable J (snd (verifyMailboxHandler J clk verrs isOwner email mailbox s))"
| refresh: "reachable J s \<Longrightarrow> reachable J (snd (refreshHandler J clk token s))"
| logout: "reachable J s \<Longrightarrow> reachable J (snd (logoutHandler token s))"
| request: "reachable J s \<Longrightarrow> reachable J (snd (authenticateToken J clk authHeader s))"

text \<open>Decimal digits of a number, as template strings print it.\<close>

fun decimal :: "nat \<Rightarrow> string" where
  "decimal n =
     (if n < 10 then [''0123456789'' ! n]
      else decimal (n div 10) @ [''0123456789'' ! (n mod 10)])"

text \<open>A small instance of the library for running the handlers on concrete requests: the
  token of a payload is its time of issue and its email address, and a token of that shape
  verifies.\<close>

definition toyJwt :: jwt where
  "toyJwt = \<lparr>sign = (\<lambda>p. decimal (nat (p_iat p)) @ '':'' @ p_email p),
             verify = (\<lambda>t now. case splitString CHR '':'' t of
                                  [i, e] \<Rightarrow> Some (Payload e e ''mail_user'' 0 0)
                                | _ \<Rightarrow> None)\<rparr>"

text \<open>A server on which one token was issued at time 0.\<close>

definition issuedAt0 :: server where
  "issuedAt0 = initial\<lparr>routesTokenStore := [''0:a@x.com'' \<mapsto> TokenData ''a@x.com'' ''a@x.com'' 0 day_ms]\<rparr>"

section \<open>Rule service (routes/spamRules.js)\<close>

text \<open>
  The store adapter is the boundary to the filtering engine, so the handlers take it as a
  parameter: three operations on the state \<open>'e\<close> of the engine, each returning or throwing.
\<close>

record rules =
  whitelist :: "string list"
  blacklist :: "string list"
  lastUpdated :: string

datatype opResult = OpResult (success: bool) (error_of: "string option")

record 'e adapter =
  getSpamRules :: "'e \<Rightarrow> string \<Rightarrow> rules outcome \<times> 'e"
  addSpamRule :: "'e \<Rightarrow> string \<Rightarrow> listType \<Rightarrow> string \<Rightarrow> opResult outcome \<times> 'e"
  removeSpamRule :: "'e \<Rightarrow> string \<Rightarrow> listType \<Rightarrow> string \<Rightarrow> opResult outcome \<times> 'e"

datatype call =
    GetSpamRules string
  | AddSpamRule string listType string
  | RemoveSpamRule string listType string

text \<open>What a request of the rule service works on: the engine, the calls made to the adapter
  so far, and the lines given to the logger.\<close>

record 'e world =
  engine :: 'e
  calls :: "call list"
  ruleLog :: "logEntry list"

definition logW :: "level \<Rightarrow> string \<Rightarrow> (string \<times> string) list \<Rightarrow> 'e world \<Rightarrow> 'e world" where
  "logW lv msg meta w = w\<lparr>ruleLog := ruleLog w @ [Log lv msg meta]\<rparr>"

definition callGet :: "'e adapter \<Rightarrow> string \<Rightarrow> 'e world \<Rightarrow> rules outcome \<times> 'e world" where
  "callGet A mailbox w =
     (case getSpamRules A (engine w) mailbox of
        (r, e1) \<Rightarrow> (r, w\<lparr>engine := e1, calls := calls w @ [GetSpamRules mailbox]\<rparr>))"

definition callAdd ::
  "'e adapter \<Rightarrow> string \<Rightarrow> listType \<Rightarrow> string \<Rightarrow> 'e world \<Rightarrow> opResult outcome \<times> 'e world" where
  "callAdd A mailbox lt entry w =
     (case addSpamRule A (engine w) mailbox lt entry of
        (r, e1) \<Rightarrow> (r, w\<lparr>engine := e1, calls := calls w @ [AddSpamRule mailbox lt entry]\<rparr>))"

definition callRemove ::
  "'e adapter \<Rightarrow> string \<Rightarrow> listType \<Rightarrow> string \<Rightarrow> 'e world \<Rightarrow> opResult outcome \<times> 'e world" where
  "callRemove A mailbox lt entry w =
     (case removeSpamRule A (engine w) mailbox lt entry of
        (r, e1) \<Rightarrow> (r, w\<lparr>engine := e1, calls := calls w @ [RemoveSpamRule mailbox lt entry]\<rparr>))"

text \<open>\<open>existingRules[listType]\<close>\<close>

definition listOf :: "listType \<Rightarrow> rules \<Rightarrow> string list" where
  "listOf lt rs = (case lt of Whitelist \<Rightarrow> whitelist rs | Blacklist \<Rightarrow> blacklist rs)"

definition listTypeName :: "listType \<Rightarrow> string" where
  "listTypeName lt = (case lt of Whitelist \<Rightarrow> ''whitelist'' | Blacklist \<Rightarrow> ''blacklist'')"

definition accessDenied :: response where
  "accessDenied = Json 403 ''Access denied: You can only manage your own mailbox'' NoBody"

text \<open>What the handlers' \<open>catch\<close> gives the logger.\<close>

definition failureMeta :: "string \<Rightarrow> string \<Rightarrow> listType \<Rightarrow> string \<Rightarrow> (string \<times> string) list" where
  "failureMeta e mailbox lt entry =
     [(''error'', e), (''mailbox'', mailbox), (''listType'', listTypeName lt), (''entry'', entry)]"

text \<open>
  A \<open>const\<close> declared in a block names its constant in the whole block; until the
  declaration has run the constant is not initialized.
\<close>

datatype 'a binding = Uninitialized | Initialized 'a

text \<open>
  The call \<open>validationResult(req)\<close> inside the \<open>try\<close> block of \<open>POST /\<close>. The block
  declares \<open>const validationResult = validateSpamEntry(entry)\<close> (line 97), so inside the
  block the name is that constant and not the function imported from the validation library.
  Reading the constant before its declaration has run raises a ReferenceError; once it is
  initialized it is the object that \<open>validateSpamEntry\<close> returned, and calling an object
  raises a TypeError. Either way the call throws; the string is the error's message.
\<close>

definition callConst :: "string \<Rightarrow> validation binding \<Rightarrow> string list outcome" where
  "callConst name b =
     (case b of
        Uninitialized \<Rightarrow>
          Throws (''Cannot access '' @ [CHR 0x27] @ name @ [CHR 0x27] @ '' before initialization'')
      | Initialized v \<Rightarrow> Throws (name @ '' is not a function''))"

text \<open>
  \<open>POST /\<close> (add a rule), statement by statement. The first statement of the \<open>try\<close> block
  (line 71) calls \<open>validationResult(req)\<close> while the block's constant of that name is not
  yet initialized; what it throws is answered by the handler's \<open>catch\<close>. The statements
  after it are the rest of the block. \<open>now\<close> is the clock at \<open>addedAt\<close>; the address of
  the client, which the log lines also carry, is left out.
\<close>

definition addSpamRuleHandler ::
  "'e adapter \<Rightarrow> int \<Rightarrow> user \<Rightarrow> string \<Rightarrow> listType \<Rightarrow> string \<Rightarrow> 'e world
     \<Rightarrow> response \<times> 'e world" where
  "addSpamRuleHandler A now usr mailbox lt entry w =
     (case callConst ''validationResult'' Uninitialized of
        Throws e \<Rightarrow>
          (Json 500 ''Failed to add entry'' NoBody, logW Error ''Failed to add spam rule'' (failureMeta e mailbox lt entry) w)
      | Returns verrs \<Rightarrow>
          if verrs \<noteq> [] then (Json 400 ''Validation failed'' (ErrorsBody verrs), w)
          else if mailbox \<noteq> u_mailbox usr then
            (accessDenied,
             logW Warn ''Unauthorized modification attempt''
               [(''requestedMailbox'', mailbox), (''userMailbox'', u_mailbox usr)] w)
          else
            let v = validateSpamEntry entry in
            if \<not> isValid v then (Json 400 ''Invalid entry format'' (DetailsBody (errors v)), w)
            else
              (case callGet A mailbox w of
                 (Throws e, w1) \<Rightarrow>
                   (Json 500 ''Failed to add entry'' NoBody,
                    logW Error ''Failed to add spam rule'' (failureMeta e mailbox lt entry) w1)
               | (Returns existingRules, w1) \<Rightarrow>
                   if entry \<in> set (listOf lt existingRules) then
                     (Json 409 ''Entry already exists in the list'' NoBody, w1)
                   else
                     (case callAdd A mailbox lt entry w1 of
                        (Throws e, w2) \<Rightarrow>
                          (Json 500 ''Failed to add entry'' NoBody,
                           logW Error ''Failed to add spam rule'' (failureMeta e mailbox lt entry) w2)
                      | (Returns result, w2) \<Rightarrow>
                          if \<not> success result then
                            (Json 500 ''Failed to add entry'' (AdapterErrorBody (error_of result)), w2)
                          else
                            (Json 200 ''Entry added successfully'' (EntryBody entry lt now),
                             logW Info ''Spam rule added''
                               [(''mailbox'', mailbox), (''listType'', listTypeName lt),
                                (''entry'', entry), (''user'', u_email usr)] w2))))"

text \<open>The middleware \<open>verifyOwnership\<close> of \<open>middleware/auth.js\<close>. The requested mailbox is
  \<open>req.body.mailbox || req.query.mailbox\<close>; an absent field is \<open>None\<close>, and the empty string
  is falsy.\<close>

datatype mwResult = Denied response | Passed

definition requestedMailbox :: "string option \<Rightarrow> string option \<Rightarrow> string option" where
  "requestedMailbox bodyMailbox queryMailbox =
     (case bodyMailbox of
        None \<Rightarrow> queryMailbox
      | Some m \<Rightarrow> (if m = [] then queryMailbox else Some m))"

definition verifyOwnership ::
  "string option \<Rightarrow> string option \<Rightarrow> user \<Rightarrow> 'e world \<Rightarrow> mwResult \<times> 'e world" where
  "verifyOwnership bodyMailbox queryMailbox usr w =
     (case requestedMailbox bodyMailbox queryMailbox of
        None \<Rightarrow> (Passed, w)
      | Some m \<Rightarrow>
          if m \<noteq> [] \<and> m \<noteq> u_mailbox usr then
            (Denied accessDenied,
             logW Warn ''Ownership verification failed''
               [(''requestedMailbox'', m), (''userMailbox'', u_mailbox usr),
                (''user'', u_email usr)] w)
          else (Passed, w))"

text \<open>\<open>POST /bulk\<close>: the body of the loop over the operations, one operation at a time.
  The entry is validated, then the adapter is called; a failed validation, a failed call and
  a thrown exception each add one item to the errors, a success adds one to the results. The
  handler around the loop declares \<open>const errors\<close> twice in one block (lines 252 and 273),
  so the file does not load; the loop is read here on its own, with the results and the
  errors as two lists.\<close>

datatype operation = Operation (op_action: action) (op_listType: listType) (op_entry: string)

definition errorOrDefault :: "opResult \<Rightarrow> string" where
  "errorOrDefault result =
     (case error_of result of
        None \<Rightarrow> ''Operation failed''
      | Some e \<Rightarrow> (if e = [] then ''Operation failed'' else e))"

text \<open>\<open>action === 'add'\<close> calls \<open>addSpamRule\<close>, every other action \<open>removeSpamRule\<close>.\<close>

definition runOperation ::
  "'e adapter \<Rightarrow> string \<Rightarrow> operation \<Rightarrow> 'e world \<Rightarrow> opResult outcome \<times> 'e world" where
  "runOperation A mailbox operation w =
     (if op_action operation = Add
      then callAdd A mailbox (op_listType operation) (op_entry operation) w
      else callRemove A mailbox (op_listType operation) (op_entry operation) w)"

definition callOf :: "string \<Rightarrow> operation \<Rightarrow> call" where
  "callOf mailbox operation =
     (if op_action operation = Add
      then AddSpamRule mailbox (op_listType operation) (op_entry operation)
      else RemoveSpamRule mailbox (op_listType operation) (op_entry operation))"

fun bulkLoop ::
  "'e adapter \<Rightarrow> string \<Rightarrow> operation list \<Rightarrow> bulkResult list \<Rightarrow> bulkError list \<Rightarrow> 'e world
     \<Rightarrow> bulkResult list \<times> bulkError list \<times> 'e world" where
  "bulkLoop A mailbox [] results errs w = (results, errs, w)"
| "bulkLoop A mailbox (operation # rest) results errs w =
     (let entry = op_entry operation; v = validateSpamEntry entry in
      if \<not> isValid v then
        bulkLoop A mailbox rest results
          (errs @ [BulkError entry ''Invalid entry format'' (Some (errors v))]) w
      else
        (case runOperation A mailbox operation w of
           (Throws e, w1) \<Rightarrow> bulkLoop A mailbox rest results (errs @ [BulkError entry e None]) w1
         | (Returns result, w1) \<Rightarrow>
             if success result then
               bulkLoop A mailbox rest
                 (results @ [BulkResult (op_action operation) (op_listType operation) entry]) errs w1
             else
               bulkLoop A mailbox rest results
                 (errs @ [BulkError entry (errorOrDefault result) None]) w1))"

text \<open>An engine for running the handlers on concrete requests: it keeps a list for each
  mailbox and kind, adding appends the entry as it was given, and every call succeeds.\<close>

definition listAdapter :: "(string \<Rightarrow> listType \<Rightarrow> string list) adapter" where
  "listAdapter =
     \<lparr>getSpamRules = (\<lambda>e mailbox.
         (Returns \<lparr>whitelist = e mailbox Whitelist, blacklist = e mailbox Blacklist, lastUpdated = []\<rparr>, e)),
      addSpamRule = (\<lambda>e mailbox lt entry.
         (Returns (OpResult True None), e(mailbox := (e mailbox)(lt := e mailbox lt @ [entry])))),
      removeSpamRule = (\<lambda>e mailbox lt entry.
         (Returns (OpResult True None), e(mailbox := (e mailbox)(lt := removeAll entry (e mailbox lt)))))\<rparr>"

definition emptyWorld :: "(string \<Rightarrow> listType \<Rightarrow> string list) world" where
  "emptyWorld = \<lparr>engine = (\<lambda>mailbox lt. []), calls = [], ruleLog = []\<rparr>"


section \<open>The matcher decides the language\<close>

lemma nullable_lang: "nullable r \<longleftrightarrow> [] \<in> lang r"
  by (induction r) (auto simp: conc_def intro: star.star_empty)

lemma lang_alt: "lang (alt r s) = lang r \<union> lang s"
  by (induction r s rule: alt.induct) simp_all

lemma lang_seq: "lang (seq r s) = conc (lang r) (lang s)"
  by (induction r s rule: seq.induct) (auto simp: conc_def)

lemma after_conc:
  "after c (conc A B) = conc (after c A) B \<union> (if [] \<in> A then after c B else {})"
proof (intro set_eqI iffI)
  fix w
  assume "w \<in> after c (conc A B)"
  then obtain u v where uv: "c # w = u @ v" "u \<in> A" "v \<in> B"
    by (auto simp: after_def conc_def)
  show "w \<in> conc (after c A) B \<union> (if [] \<in> A then after c B else {})"
  proof (cases u)
    case Nil
    with uv show ?thesis by (auto simp: after_def)
  next
    case (Cons d u')
    with uv have "d = c" "w = u' @ v" "c # u' \<in> A" by auto
    with uv(3) show ?thesis by (auto simp: after_def conc_def)
  qed
next
  fix w
  assume "w \<in> conc (after c A) B \<union> (if [] \<in> A then after c B else {})"
  then consider (l) "w \<in> conc (after c A) B" | (r) "[] \<in> A" "w \<in> after c B"
    by (auto split: if_splits)
  then show "w \<in> after c (conc A B)"
  proof cases
    case l
    then obtain u v where "w = u @ v" "c # u \<in> A" "v \<in> B"
      by (auto simp: after_def conc_def)
    then have "c # w = (c # u) @ v \<and> c # u \<in> A \<and> v \<in> B" by simp
    then show ?thesis unfolding after_def conc_def by blast
  next
    case r
    then have "c # w = [] @ (c # w) \<and> [] \<in> A \<and> c # w \<in> B" by (simp add: after_def)
    then show ?thesis unfolding after_def conc_def by blast
  qed
qed

lemma star_cons_split:
  "x \<in> star A \<Longrightarrow> x = c # w \<Longrightarrow> w \<in> conc (after c A) (star A)"
proof (induction arbitrary: w rule: star.induct)
  case star_empty
  then show ?case by simp
next
  case (star_more u v)
  show ?case
  proof (cases u)
    case Nil
    with star_more show ?thesis by simp
  next
    case (Cons d u')
    with star_more.prems have "d = c" "w = u' @ v" by auto
    with Cons star_more.hyps show ?thesis by (auto simp: after_def conc_def)
  qed
qed

lemma after_star: "after c (star A) = conc (after c A) (star A)"
proof (intro set_eqI iffI)
  fix w
  assume "w \<in> after c (star A)"
  then show "w \<in> conc (after c A) (star A)"
    using star_cons_split [of "c # w" A c w] by (simp add: after_def)
next
  fix w
  assume "w \<in> conc (after c A) (star A)"
  then obtain u v where w: "w = u @ v" and u: "c # u \<in> A" and v: "v \<in> star A"
    by (auto simp: after_def conc_def)
  from u v have "(c # u) @ v \<in> star A" by (rule star.star_more)
  with w show "w \<in> after c (star A)" by (simp add: after_def)
qed

lemma lang_deriv: "lang (deriv c r) = after c (lang r)"
proof (induction r)
  case (Seq r s)
  then show ?case
    by (simp add: lang_alt lang_seq after_conc nullable_lang)
next
  case (Star r)
  then show ?case by (simp add: lang_seq after_star)
qed (auto simp: after_def lang_alt)

lemma lang_derivs: "lang (derivs r s) = {w. s @ w \<in> lang r}"
  by (induction s arbitrary: r) (simp_all add: lang_deriv after_def)

lemma test_anchored_lang: "test_anchored r s \<longleftrightarrow> s \<in> lang r"
  by (simp add: test_anchored_def nullable_lang lang_derivs)

lemma star_all: "w \<in> star {[c] | c. True}"
proof (induction w)
  case Nil
  show ?case by (rule star.star_empty)
next
  case (Cons a w)
  have "[a] @ w \<in> star {[c] | c. True}"
    by (rule star.star_more) (use Cons in auto)
  then show ?case by simp
qed

lemma test_search_lang: "test_search r s \<longleftrightarrow> (\<exists>u v w. s = u @ v @ w \<and> v \<in> lang r)"
proof
  assume "test_search r s"
  then have "s \<in> conc (star {[c] | c. True}) (conc (lang r) (star {[c] | c. True}))"
    by (simp add: test_search_def test_anchored_lang)
  then show "\<exists>u v w. s = u @ v @ w \<and> v \<in> lang r"
    unfolding conc_def by blast
next
  assume "\<exists>u v w. s = u @ v @ w \<and> v \<in> lang r"
  then obtain u v w where s: "s = u @ v @ w" and v: "v \<in> lang r" by blast
  have "v @ w \<in> conc (lang r) (star {[c] | c. True})"
    unfolding conc_def using v star_all [of w] by blast
  then have "u @ v @ w \<in> conc (star {[c] | c. True}) (conc (lang r) (star {[c] | c. True}))"
    unfolding conc_def [of "star {[c] | c. True}"] using star_all [of u] by blast
  then show "test_search r s"
    by (simp add: s test_search_def test_anchored_lang)
qed

section \<open>Properties of the validator\<close>

subsection \<open>Normalization\<close>


lemma toLowerChar_idem: "toLowerChar (toLowerChar c) = toLowerChar c"
  by (auto simp: toLowerChar_def isUpper_def code_def)

lemma isWhiteSpace_toLowerChar: "isWhiteSpace (toLowerChar c) = isWhiteSpace c"
  by (auto simp: toLowerChar_def isUpper_def isWhiteSpace_def code_def)

lemma toLowerCase_idem: "toLowerCase (toLowerCase s) = toLowerCase s"
  by (simp add: toLowerCase_def toLowerChar_idem)

lemma last_dropWhile_keep: "dropWhile P xs \<noteq> [] \<Longrightarrow> last (dropWhile P xs) = last xs"
  by (induction xs) (auto split: if_splits)

lemma trim_ends:
  assumes "trim s \<noteq> []"
  shows "\<not> isWhiteSpace (hd (trim s)) \<and> \<not> isWhiteSpace (last (trim s))"
proof -
  let ?t = "dropWhile isWhiteSpace s"
  let ?u = "dropWhile isWhiteSpace (rev ?t)"
  from assms have u: "?u \<noteq> []" by (simp add: trim_def)
  have t: "?t \<noteq> []"
  proof
    assume "?t = []"
    with u show False by simp
  qed
  have "last (trim s) = hd ?u" using u by (simp add: trim_def last_rev)
  moreover have "\<not> isWhiteSpace (hd ?u)" using u by (rule hd_dropWhile)
  moreover have "hd (trim s) = last ?u" using u by (simp add: trim_def hd_rev)
  moreover have "last ?u = last (rev ?t)" using u by (rule last_dropWhile_keep)
  moreover have "last (rev ?t) = hd ?t" using t by (simp add: last_rev)
  moreover have "\<not> isWhiteSpace (hd ?t)" using t by (rule hd_dropWhile)
  ultimately show ?thesis by simp
qed

lemma trim_fixed:
  assumes "t = [] \<or> (\<not> isWhiteSpace (hd t) \<and> \<not> isWhiteSpace (last t))"
  shows "trim t = t"
proof (cases "t = []")
  case True
  then show ?thesis by (simp add: trim_def)
next
  case False
  with assms have h: "\<not> isWhiteSpace (hd t)" and l: "\<not> isWhiteSpace (last t)" by auto
  from False h have 1: "dropWhile isWhiteSpace t = t" by (cases t) auto
  from False l have "\<not> isWhiteSpace (hd (rev t))" by (simp add: hd_rev)
  with False have 2: "dropWhile isWhiteSpace (rev t) = rev t" by (cases "rev t") auto
  show ?thesis by (simp add: trim_def 1 2)
qed

lemma trim_idem: "trim (trim s) = trim s"
  using trim_ends [of s] by (intro trim_fixed) blast

lemma trim_toLowerCase: "trim (toLowerCase s) = toLowerCase (trim s)"
proof -
  have c: "isWhiteSpace \<circ> toLowerChar = isWhiteSpace"
    by (rule ext) (simp add: isWhiteSpace_toLowerChar)
  show ?thesis
    by (simp add: trim_def toLowerCase_def dropWhile_map rev_map c)
qed

lemma trim_at_cons:
  assumes "trim t = t"
  shows "trim (CHR ''@'' # t) = CHR ''@'' # t"
proof (cases "t = []")
  case True
  then show ?thesis by (simp add: trim_def isWhiteSpace_def code_def)
next
  case False
  with assms trim_ends [of t] have "\<not> isWhiteSpace (last t)" by simp
  with False show ?thesis
    by (intro trim_fixed) (simp add: isWhiteSpace_def code_def)
qed

lemma normalizeEntry_idem: "normalizeEntry (normalizeEntry s) = normalizeEntry s"
proof (cases "s = []")
  case True
  then show ?thesis by (simp add: normalizeEntry_def)
next
  case False
  define t where "t = toLowerCase (trim s)"
  have T1: "trim t = t" by (simp add: t_def trim_toLowerCase trim_idem)
  have T2: "toLowerCase t = t" by (simp add: t_def toLowerCase_idem)
  have lowat: "toLowerChar CHR ''@'' = CHR ''@''"
    by (simp add: toLowerChar_def isUpper_def code_def)
  have T3: "toLowerCase (trim (CHR ''@'' # t)) = CHR ''@'' # t"
    using T2 by (simp add: trim_at_cons [OF T1]) (simp add: toLowerCase_def lowat)
  have T4: "toLowerCase (trim t) = t" by (simp add: T1 T2)
  from False have n: "normalizeEntry s =
     (if includesChar t CHR ''@'' \<and> \<not> startsWithChar t CHR ''@'' then t
      else if includesChar t CHR ''.'' \<and> \<not> includesChar t CHR ''@'' then
        (if \<not> startsWithChar t CHR ''@'' then CHR ''@'' # t else t)
      else t)"
    by (simp add: normalizeEntry_def t_def Let_def)
  show ?thesis
    unfolding n
    by (auto simp: normalizeEntry_def Let_def T3 T4 includesChar_def startsWithChar_def
             split: list.splits)
qed

lemma checkDangerous_eq:
  "checkDangerous ps n errs =
     (if \<exists>p\<in>set ps. test_search p n
      then errs @ [''Entry contains potentially dangerous content''] else errs)"
  by (induction ps) auto

lemma no_danger_in_empty: "\<not> (\<exists>p\<in>set dangerousPatterns. test_search p [])"
  by code_simp


lemma checkEntryType_append: "checkEntryType n errs = errs @ checkEntryType n []"
  by (simp add: checkEntryType_def Let_def)

lemma checkEntryType_cases:
  "checkEntryType n [] = [] \<or>
   checkEntryType n [] = [''Invalid email address format''] \<or>
   checkEntryType n [] = [''Invalid domain format''] \<or>
   checkEntryType n [] = [''Invalid wildcard pattern''] \<or>
   checkEntryType n [] = [''Invalid entry format. Must be email, domain, IP address, or wildcard pattern'']"
  by (simp add: checkEntryType_def Let_def)

lemma normalizeEntry_Nil: "normalizeEntry [] = []"
  by (simp add: normalizeEntry_def)

subsection \<open>Claims\<close>

text \<open>
  C1. The claim: \<open>validate("EXAMPLE.com")\<close> is valid, of kind Domain, normalized
  \<open>"@example.com"\<close>. The code normalizes the entry to \<open>"@example.com"\<close>, and then the first
  branch of the cascade, \<open>normalized.includes('@')\<close>, takes every text with a marker as an
  email address: the entry is rejected with the email format error.
\<close>

theorem validate_EXAMPLE_com_rejected:
  "validateSpamEntry ''EXAMPLE.com'' =
     \<lparr>isValid = False, errors = [''Invalid email address format''],
      normalized = Some ''@example.com''\<rparr>"
  by code_simp

text \<open>
  C3. The claim: four dot-separated decimal octets are accepted as an IP address. The code
  prepends the domain marker to every dotted text without a marker, so \<open>"192.168.1.1"\<close> is
  normalized to \<open>"@192.168.1.1"\<close>, taken as an email address and rejected, although
  \<open>isValidIPv4\<close> accepts the entry itself.
\<close>

theorem validate_ipv4_rejected:
  "isValidIPv4 ''192.168.1.1'' \<and>
   validateSpamEntry ''192.168.1.1'' =
     \<lparr>isValid = False, errors = [''Invalid email address format''],
      normalized = Some ''@192.168.1.1''\<rparr>"
  by code_simp

text \<open>
  C6, as stated: an input that matches a dangerous pattern is rejected with exactly one
  error. It fails at \<open><script>alert(1)</script>\<close>: the loop over the patterns ends with
  \<open>break\<close>, not with \<open>return\<close>, and the check of the entry type adds a second error.
\<close>

theorem dangerous_two_errors_counterexample:
  "(\<exists>p\<in>set dangerousPatterns. test_search p (normalizeEntry ''<script>alert(1)</script>'')) \<and>
   errors (validateSpamEntry ''<script>alert(1)</script>'') =
     [''Entry contains potentially dangerous content'',
      ''Invalid entry format. Must be email, domain, IP address, or wildcard pattern'']"
  by code_simp

text \<open>
  C6, amended: an input whose normalized text (of at most 255 characters) matches a dangerous
  pattern is rejected; the dangerous-content error comes first and once, whatever the number
  of patterns that match, and the check of the entry type still runs and adds at most one
  format error.
\<close>

theorem dangerous_rejected:
  assumes "\<exists>p\<in>set dangerousPatterns. test_search p (normalizeEntry entry)"
    and "length (normalizeEntry entry) \<le> 255"
  shows "\<not> isValid (validateSpamEntry entry) \<and>
         errors (validateSpamEntry entry) =
           ''Entry contains potentially dangerous content'' # checkEntryType (normalizeEntry entry) [] \<and>
         length (checkEntryType (normalizeEntry entry) []) \<le> 1 \<and>
         ''Entry contains potentially dangerous content'' \<notin> set (checkEntryType (normalizeEntry entry) [])"
proof -
  let ?n = "normalizeEntry entry"
  from assms(1) no_danger_in_empty have n: "?n \<noteq> []" by auto
  then have e: "entry \<noteq> []" using normalizeEntry_Nil by auto
  have d: "checkDangerous dangerousPatterns ?n [] = [''Entry contains potentially dangerous content'']"
    using assms(1) by (simp add: checkDangerous_eq)
  have v: "validateSpamEntry entry =
      \<lparr>isValid = (length (checkEntryType ?n (checkDangerous dangerousPatterns ?n [])) = 0),
       errors = checkEntryType ?n (checkDangerous dangerousPatterns ?n []),
       normalized = Some ?n\<rparr>"
    using n e assms(2) by (simp add: validateSpamEntry_def Let_def)
  have a: "checkEntryType ?n (checkDangerous dangerousPatterns ?n []) =
      ''Entry contains potentially dangerous content'' # checkEntryType ?n []"
    by (subst checkEntryType_append) (simp add: d)
  show ?thesis
    unfolding v a using checkEntryType_cases [of ?n] by auto
qed

theorem dangerous_rejected_witness:
  "\<not> isValid (validateSpamEntry ''onx=a@example.com'') \<and>
   errors (validateSpamEntry ''onx=a@example.com'') = [''Entry contains potentially dangerous content'']"
proof -
  have 1: "\<exists>p\<in>set dangerousPatterns. test_search p (normalizeEntry ''onx=a@example.com'')"
    by code_simp
  have 2: "length (normalizeEntry ''onx=a@example.com'') \<le> 255"
    by code_simp
  have 3: "checkEntryType (normalizeEntry ''onx=a@example.com'') [] = []"
    by code_simp
  show ?thesis
    using dangerous_rejected [OF 1 2] by (simp add: 3)
qed

text \<open>
  C10. For every string that the validator classifies as Email, normalizing twice gives what
  normalizing once gives.
\<close>

theorem normalize_idempotent_on_email:
  "classifiedAs s Email \<Longrightarrow> normalizeEntry (normalizeEntry s) = normalizeEntry s"
  by (rule normalizeEntry_idem)

theorem normalize_idempotent_on_email_witness:
  "classifiedAs ''  USER@EXAMPLE.COM  '' Email \<and>
   normalizeEntry (normalizeEntry ''  USER@EXAMPLE.COM  '') = normalizeEntry ''  USER@EXAMPLE.COM  '' \<and>
   normalizeEntry ''  USER@EXAMPLE.COM  '' = ''user@example.com''"
proof -
  have c: "classifiedAs ''  USER@EXAMPLE.COM  '' Email" by code_simp
  have n: "normalizeEntry ''  USER@EXAMPLE.COM  '' = ''user@example.com''" by code_simp
  show ?thesis
    using normalize_idempotent_on_email [OF c] c n by simp
qed


subsection \<open>Dotted quads\<close>

text \<open>A string of an expression consists of characters of the expression's classes.\<close>




lemma star_chars:
  "w \<in> star A \<Longrightarrow> (\<And>u. u \<in> A \<Longrightarrow> \<forall>c\<in>set u. P c) \<Longrightarrow> \<forall>c\<in>set w. P c"
  by (induction rule: star.induct) auto

lemma lang_chars: "classes_within P r \<Longrightarrow> w \<in> lang r \<Longrightarrow> \<forall>c\<in>set w. P c"
proof (induction r arbitrary: w)
  case (Star r)
  from Star.prems(2) have "w \<in> star (lang r)" by simp
  then show ?case
    by (rule star_chars) (use Star in auto)
qed (auto simp: conc_def)

lemma ipv4Regex_classes: "classes_within ipChar ipv4Regex"
  by (auto simp: ipv4Regex_def octet_def Opt_def Lit_def ipChar_def in_range_def code_def)

lemma ipv4_has_dot: "w \<in> lang ipv4Regex \<Longrightarrow> CHR ''.'' \<in> set w"
  by (auto simp: ipv4Regex_def Lit_def conc_def)

lemma ipChar_plain: "ipChar c \<Longrightarrow> \<not> isWhiteSpace c \<and> \<not> isUpper c \<and> c \<noteq> CHR ''@''"
  by (auto simp: ipChar_def in_range_def isWhiteSpace_def isUpper_def code_def)

lemma not_local_at: "\<not> localChar CHR ''@''"
  by (simp add: localChar_def alnum_def in_range_def code_def)

lemma email_starts_local: "w \<in> lang emailRegex \<Longrightarrow> w \<noteq> [] \<and> localChar (hd w)"
  by (auto simp: emailRegex_def Plus_def conc_def)

text \<open>A text that starts with the domain marker is no email address.\<close>

lemma marker_not_email: "\<not> isValidEmail (CHR ''@'' # w)"
  using email_starts_local [of "CHR ''@'' # w"] not_local_at
  by (auto simp: isValidEmail_def test_anchored_lang)

text \<open>Every string that \<open>isValidIPv4\<close> accepts is normalized to a text with the marker in
  front, and the validator rejects it.\<close>

lemma ipv4_entries_rejected:
  assumes "isValidIPv4 ip"
  shows "normalizeEntry ip = CHR ''@'' # ip" and "\<not> isValid (validateSpamEntry ip)"
proof -
  from assms have l: "ip \<in> lang ipv4Regex"
    by (simp add: isValidIPv4_def test_anchored_lang)
  have ch: "\<forall>c\<in>set ip. ipChar c"
    using ipv4Regex_classes l by (rule lang_chars)
  have dot: "CHR ''.'' \<in> set ip"
    using l by (rule ipv4_has_dot)
  have ne: "ip \<noteq> []"
    using dot by (cases ip) simp_all
  have plain: "\<not> isWhiteSpace c \<and> \<not> isUpper c \<and> c \<noteq> CHR ''@''" if "c \<in> set ip" for c
    using ch that by (intro ipChar_plain) blast
  have "hd ip \<in> set ip" and "last ip \<in> set ip"
    using ne by simp_all
  then have "\<not> isWhiteSpace (hd ip) \<and> \<not> isWhiteSpace (last ip)"
    using plain by blast
  then have t: "trim ip = ip"
    by (rule trim_fixed [OF disjI2])
  have "map toLowerChar ip = ip"
    by (rule map_idI) (simp add: toLowerChar_def plain)
  then have lo: "toLowerCase ip = ip"
    by (simp add: toLowerCase_def)
  have noat: "CHR ''@'' \<notin> set ip"
    using plain by blast
  have nost: "\<not> startsWithChar ip CHR ''@''"
    using noat by (cases ip) (auto simp: startsWithChar_def)
  have inc: "includesChar ip CHR ''.''" "\<not> includesChar ip CHR ''@''"
    using dot noat by (simp_all add: includesChar_def)
  show n: "normalizeEntry ip = CHR ''@'' # ip"
    unfolding normalizeEntry_def Let_def t lo using ne nost inc by simp
  have e: "\<not> isValidEmail (CHR ''@'' # ip)"
    by (rule marker_not_email)
  have i: "includesChar (CHR ''@'' # ip) CHR ''@''"
    by (simp add: includesChar_def)
  have c: "checkEntryType (CHR ''@'' # ip) errs = errs @ [''Invalid email address format'']" for errs
    unfolding checkEntryType_def using e i by simp
  show "\<not> isValid (validateSpamEntry ip)"
    unfolding validateSpamEntry_def n Let_def c using ne by simp
qed



section \<open>Properties of the tokens\<close>

text \<open>No handler and no step of the middleware puts a token into the middleware's map.\<close>

lemma reachable_middleware_empty:
  "reachable J s \<Longrightarrow> middlewareTokenStore s = Map.empty"
proof (induction rule: reachable.induct)
  case start
  show ?case by (simp add: initial_def)
next
  case (plesk s clk verrs isValidSession mailbox)
  then show ?case
    by (simp add: verifyPleskSessionHandler_def logTo_def Let_def split: outcome.splits)
next
  case (imap s clk verrs isOwner email mailbox)
  then show ?case
    by (simp add: verifyMailboxHandler_def logTo_def Let_def split: outcome.splits)
next
  case (refresh s clk token)
  then show ?case
    by (simp add: refreshHandler_def Let_def split: option.splits)
next
  case (logout s token)
  then show ?case
    by (simp add: logoutHandler_def logTo_def split: option.splits)
next
  case (request s clk authHeader)
  then show ?case
    by (simp add: authenticateToken_def logTo_def split: option.splits)
qed

text \<open>
  C2. In every state that the server reaches, the middleware answers every request with 401
  or 403 and never passes it on; a token that verifies, as a token issued by either path
  does before its expiry, is answered with 401 ``Token expired or invalid'', because the map
  that the middleware consults is empty.
\<close>

theorem issued_tokens_rejected:
  assumes "reachable J s"
  shows "(\<exists>r. fst (authenticateToken J clk authHeader s) = Reply r \<and> code_of r \<in> {401, 403}) \<and>
         (\<forall>token decoded.
            bearerToken authHeader = Some token \<longrightarrow> verify J token (clk 0) = Some decoded \<longrightarrow>
            fst (authenticateToken J clk authHeader s) =
              Reply (Json 401 ''Token expired or invalid'' NoBody))"
  using reachable_middleware_empty [OF assms]
  by (auto simp: authenticateToken_def split: option.splits)

theorem issued_tokens_rejected_witness:
  "fst (verifyPleskSessionHandler toyJwt (\<lambda>k. 1000) [] (Returns True) ''a@x.com'' initial) =
     Json 200 ''Authentication successful'' (TokenBody ''1:a@x.com'' ''24h'') \<and>
   routesTokenStore
     (snd (verifyPleskSessionHandler toyJwt (\<lambda>k. 1000) [] (Returns True) ''a@x.com'' initial))
     ''1:a@x.com'' = Some (TokenData ''a@x.com'' ''a@x.com'' 1000 (1000 + day_ms)) \<and>
   fst (authenticateToken toyJwt (\<lambda>k. 2000) (Some ''Bearer 1:a@x.com'')
     (snd (verifyPleskSessionHandler toyJwt (\<lambda>k. 1000) [] (Returns True) ''a@x.com'' initial))) =
     Reply (Json 401 ''Token expired or invalid'' NoBody)"
proof -
  let ?s = "snd (verifyPleskSessionHandler toyJwt (\<lambda>k. 1000) [] (Returns True) ''a@x.com'' initial)"
  have r: "reachable toyJwt ?s"
    by (rule reachable.plesk [OF reachable.start])
  have b: "bearerToken (Some ''Bearer 1:a@x.com'') = Some ''1:a@x.com''"
    by (simp add: bearerToken_def)
  have v: "verify toyJwt ''1:a@x.com'' 2000 = Some (Payload ''a@x.com'' ''a@x.com'' ''mail_user'' 0 0)"
    by (simp add: toyJwt_def)
  have 1: "fst (verifyPleskSessionHandler toyJwt (\<lambda>k. 1000) [] (Returns True) ''a@x.com'' initial) =
     Json 200 ''Authentication successful'' (TokenBody ''1:a@x.com'' ''24h'')"
    by (simp add: verifyPleskSessionHandler_def generateToken_def toyJwt_def Let_def)
  have 2: "routesTokenStore ?s ''1:a@x.com'' = Some (TokenData ''a@x.com'' ''a@x.com'' 1000 (1000 + day_ms))"
    by (simp add: verifyPleskSessionHandler_def generateToken_def toyJwt_def Let_def logTo_def
          initial_def)
  from issued_tokens_rejected [OF r, of "\<lambda>k. 2000" "Some ''Bearer 1:a@x.com''"] b v
  have 3: "fst (authenticateToken toyJwt (\<lambda>k. 2000) (Some ''Bearer 1:a@x.com'') ?s) =
     Reply (Json 401 ''Token expired or invalid'' NoBody)"
    by simp
  from 1 2 3 show ?thesis by blast
qed

text \<open>
  C8. Refresh with a registered token that has not expired answers 200 with a new token,
  deletes the old entry and registers the new token for the same email and mailbox, expiring
  24 hours after the clock's reading at the registration; refresh with an absent or expired
  token answers 401 ``Invalid or expired token'' (and deletes the entry).
\<close>

theorem refresh_token:
  "(\<forall>td. routesTokenStore s token = Some td \<and> \<not> expiresAt td < clk 0 \<longrightarrow>
      fst (refreshHandler J clk token s) =
        Json 200 ''Token refreshed successfully''
          (TokenBody (generateToken J (clk 1) (clk 2) (td_email td) (td_mailbox td)) ''24h'') \<and>
      snd (refreshHandler J clk token s) =
        s\<lparr>routesTokenStore := ((routesTokenStore s)(token := None))
             (generateToken J (clk 1) (clk 2) (td_email td) (td_mailbox td) \<mapsto>
                TokenData (td_email td) (td_mailbox td) (clk 3) (clk 4 + day_ms))\<rparr>) \<and>
   ((routesTokenStore s token = None \<or>
     (\<exists>td. routesTokenStore s token = Some td \<and> expiresAt td < clk 0)) \<longrightarrow>
      refreshHandler J clk token s =
        (Json 401 ''Invalid or expired token'' NoBody,
         s\<lparr>routesTokenStore := (routesTokenStore s)(token := None)\<rparr>))"
  by (auto simp: refreshHandler_def Let_def split: option.splits)


theorem refresh_token_witness:
  "fst (refreshHandler toyJwt (\<lambda>k. 82800000) ''0:a@x.com'' issuedAt0) =
     Json 200 ''Token refreshed successfully'' (TokenBody ''82800:a@x.com'' ''24h'') \<and>
   routesTokenStore (snd (refreshHandler toyJwt (\<lambda>k. 82800000) ''0:a@x.com'' issuedAt0))
     ''82800:a@x.com'' =
     Some (TokenData ''a@x.com'' ''a@x.com'' (82800000) (82800000 + day_ms)) \<and>
   routesTokenStore (snd (refreshHandler toyJwt (\<lambda>k. 82800000) ''0:a@x.com'' issuedAt0))
     ''0:a@x.com'' = None \<and>
   fst (refreshHandler toyJwt (\<lambda>k. day_ms + 1000) ''0:a@x.com'' issuedAt0) =
     Json 401 ''Invalid or expired token'' NoBody \<and>
   fst (refreshHandler toyJwt (\<lambda>k. 5) ''7:b@x.com'' issuedAt0) =
     Json 401 ''Invalid or expired token'' NoBody"
proof -
  have st: "routesTokenStore issuedAt0 ''0:a@x.com'' = Some (TokenData ''a@x.com'' ''a@x.com'' 0 day_ms)"
    by (simp add: issuedAt0_def)
  have no: "routesTokenStore issuedAt0 ''7:b@x.com'' = None"
    by (simp add: issuedAt0_def)
  have g: "generateToken toyJwt (82800000) (82800000) ''a@x.com'' ''a@x.com'' = ''82800:a@x.com''"
    by (simp add: generateToken_def toyJwt_def)
  have a: "\<not> expiresAt (TokenData ''a@x.com'' ''a@x.com'' 0 day_ms) < 82800000"
    by (simp add: day_ms_def)
  have b: "expiresAt (TokenData ''a@x.com'' ''a@x.com'' 0 day_ms) < day_ms + 1000"
    by simp
  from refresh_token [of issuedAt0 "''0:a@x.com''" "\<lambda>k. 82800000" toyJwt] st a
  have 1: "fst (refreshHandler toyJwt (\<lambda>k. 82800000) ''0:a@x.com'' issuedAt0) =
        Json 200 ''Token refreshed successfully'' (TokenBody ''82800:a@x.com'' ''24h'')"
    and 2: "snd (refreshHandler toyJwt (\<lambda>k. 82800000) ''0:a@x.com'' issuedAt0) =
        issuedAt0\<lparr>routesTokenStore := ((routesTokenStore issuedAt0)(''0:a@x.com'' := None))
             (''82800:a@x.com'' \<mapsto>
                TokenData ''a@x.com'' ''a@x.com'' (82800000) (82800000 + day_ms))\<rparr>"
    by (simp_all add: g)
  from refresh_token [of issuedAt0 "''0:a@x.com''" "\<lambda>k. day_ms + 1000" toyJwt] st b
  have 3: "fst (refreshHandler toyJwt (\<lambda>k. day_ms + 1000) ''0:a@x.com'' issuedAt0) =
     Json 401 ''Invalid or expired token'' NoBody"
    by simp
  from refresh_token [of issuedAt0 "''7:b@x.com''" "\<lambda>k. 5" toyJwt] no
  have 4: "fst (refreshHandler toyJwt (\<lambda>k. 5) ''7:b@x.com'' issuedAt0) =
     Json 401 ''Invalid or expired token'' NoBody"
    by simp
  show ?thesis
    unfolding 2 using 1 3 4 by simp
qed


section \<open>Properties of the rule service\<close>

lemma valid_A_B: "isValid (validateSpamEntry ''A@B.com'')" by code_simp
lemma valid_a_b: "isValid (validateSpamEntry ''a@b.com'')" by code_simp
lemma norm_A_B: "normalized (validateSpamEntry ''A@B.com'') = Some ''a@b.com''" by code_simp

subsection \<open>The middleware \<open>verifyOwnership\<close>\<close>

text \<open>The mailbox that a request carries is the one of its body, if that is a non-empty
  string, and otherwise the one of its query. For a request that carries a non-empty mailbox
  the middleware passes exactly when that mailbox and the user's are the same string, and
  otherwise answers 403 and gives the logger a warning with both mailboxes.\<close>

lemma verifyOwnership_exact_match:
  assumes "bodyMailbox = Some m \<or> ((bodyMailbox = None \<or> bodyMailbox = Some []) \<and> queryMailbox = Some m)"
    and "m \<noteq> []"
  shows "(fst (verifyOwnership bodyMailbox queryMailbox usr w) = Passed \<longleftrightarrow> m = u_mailbox usr)"
    and "m = u_mailbox usr \<Longrightarrow> verifyOwnership bodyMailbox queryMailbox usr w = (Passed, w)"
    and "m \<noteq> u_mailbox usr \<Longrightarrow>
           verifyOwnership bodyMailbox queryMailbox usr w =
             (Denied accessDenied,
              w\<lparr>ruleLog := ruleLog w @
                 [Log Warn ''Ownership verification failed''
                    [(''requestedMailbox'', m), (''userMailbox'', u_mailbox usr),
                     (''user'', u_email usr)]]\<rparr>)"
proof -
  from assms have r: "requestedMailbox bodyMailbox queryMailbox = Some m"
    by (auto simp: requestedMailbox_def)
  show "fst (verifyOwnership bodyMailbox queryMailbox usr w) = Passed \<longleftrightarrow> m = u_mailbox usr"
    using assms(2) by (simp add: verifyOwnership_def r)
  show "m = u_mailbox usr \<Longrightarrow> verifyOwnership bodyMailbox queryMailbox usr w = (Passed, w)"
    by (simp add: verifyOwnership_def r)
  show "m \<noteq> u_mailbox usr \<Longrightarrow>
           verifyOwnership bodyMailbox queryMailbox usr w =
             (Denied accessDenied,
              w\<lparr>ruleLog := ruleLog w @
                 [Log Warn ''Ownership verification failed''
                    [(''requestedMailbox'', m), (''userMailbox'', u_mailbox usr),
                     (''user'', u_email usr)]]\<rparr>)"
    using assms(2) by (simp add: verifyOwnership_def r logW_def)
qed

lemma verifyOwnership_query_mailbox:
  "fst (verifyOwnership None (Some ''b@x.com'') (User ''a@x.com'' ''a@x.com'' ''mail_user'') emptyWorld) =
     Denied accessDenied \<and>
   fst (verifyOwnership (Some []) (Some ''a@x.com'') (User ''a@x.com'' ''a@x.com'' ''mail_user'') emptyWorld) =
     Passed \<and>
   fst (verifyOwnership (Some ''b@x.com'') (Some ''a@x.com'') (User ''a@x.com'' ''a@x.com'' ''mail_user'')
          emptyWorld) = Denied accessDenied"
  by (simp add: verifyOwnership_def requestedMailbox_def)

subsection \<open>\<open>POST /\<close>\<close>

text \<open>The first statement of the handler throws, so every request is answered by the
  \<open>catch\<close>: 500, one error line for the logger, and no call to the adapter.\<close>

lemma callConst_throws: "\<exists>e. callConst name b = Throws e"
  by (cases b) (simp_all add: callConst_def)

lemma add_always_fails:
  "addSpamRuleHandler A now usr mailbox lt entry w =
     (Json 500 ''Failed to add entry'' NoBody,
      w\<lparr>ruleLog := ruleLog w @
         [Log Error ''Failed to add spam rule''
            (failureMeta (''Cannot access '' @ [CHR 0x27] @ ''validationResult'' @ [CHR 0x27]
                            @ '' before initialization'') mailbox lt entry)]\<rparr>)"
  by (simp add: addSpamRuleHandler_def callConst_def logW_def)

text \<open>
  C7. The claim: a request whose mailbox is not the user's is denied with 403 and the
  mismatch is logged, and a request for the user's own mailbox is allowed. The code of
  \<open>POST /\<close> does not reach its ownership check: the owner of \<open>a@x.com\<close> asking for
  \<open>b@x.com\<close> is answered 500 ``Failed to add entry'', not 403, and the logger gets an error
  line and no line about the two mailboxes; asking for \<open>a@x.com\<close> is answered 500 as well.
\<close>

theorem add_other_mailbox_not_forbidden:
  "addSpamRuleHandler listAdapter 0 (User ''a@x.com'' ''a@x.com'' ''mail_user'')
     ''b@x.com'' Whitelist ''a@b.com'' emptyWorld =
     (Json 500 ''Failed to add entry'' NoBody,
      \<lparr>engine = (\<lambda>mailbox lt. []), calls = [],
       ruleLog = [Log Error ''Failed to add spam rule''
         [(''error'', ''Cannot access '' @ [CHR 0x27] @ ''validationResult'' @ [CHR 0x27]
                        @ '' before initialization''),
          (''mailbox'', ''b@x.com''), (''listType'', ''whitelist''), (''entry'', ''a@b.com'')]]\<rparr>) \<and>
   fst (addSpamRuleHandler listAdapter 0 (User ''a@x.com'' ''a@x.com'' ''mail_user'')
     ''b@x.com'' Whitelist ''a@b.com'' emptyWorld) \<noteq> accessDenied \<and>
   fst (addSpamRuleHandler listAdapter 0 (User ''a@x.com'' ''a@x.com'' ''mail_user'')
     ''a@x.com'' Whitelist ''a@b.com'' emptyWorld) = Json 500 ''Failed to add entry'' NoBody"
  by (simp add: add_always_fails emptyWorld_def failureMeta_def listTypeName_def accessDenied_def)

text \<open>
  C5. The claim: a successful Add passes the validator's normalized form of the entry to the
  adapter's add operation. The code of \<open>POST /\<close> has no successful Add: the valid entry
  \<open>A@B.com\<close>, submitted by the owner of the mailbox, is answered 500, and nothing is passed
  to the adapter, neither the entry nor its normalized form \<open>a@b.com\<close>.
\<close>

theorem add_valid_entry_not_delegated:
  "isValid (validateSpamEntry ''A@B.com'') \<and>
   normalized (validateSpamEntry ''A@B.com'') = Some ''a@b.com'' \<and>
   fst (addSpamRuleHandler listAdapter 0 (User ''a@x.com'' ''a@x.com'' ''mail_user'')
     ''a@x.com'' Whitelist ''A@B.com'' emptyWorld) = Json 500 ''Failed to add entry'' NoBody \<and>
   calls (snd (addSpamRuleHandler listAdapter 0 (User ''a@x.com'' ''a@x.com'' ''mail_user'')
     ''a@x.com'' Whitelist ''A@B.com'' emptyWorld)) = [] \<and>
   engine (snd (addSpamRuleHandler listAdapter 0 (User ''a@x.com'' ''a@x.com'' ''mail_user'')
     ''a@x.com'' Whitelist ''A@B.com'' emptyWorld)) ''a@x.com'' Whitelist = []"
  by (simp add: add_always_fails emptyWorld_def valid_A_B norm_A_B)

text \<open>
  C4. The claim: an Add succeeds, and a second Add of an entry with the same normalized form
  is answered with a conflict, the adapter's add operation having been called once. With the
  code of \<open>POST /\<close>, the owner's Add of the valid entry \<open>a@b.com\<close> is answered 500, the
  second Add of the same entry is answered 500 and not 409, and the adapter is called neither
  for the list nor for an add.
\<close>

theorem add_twice_no_conflict:
  "isValid (validateSpamEntry ''a@b.com'') \<and>
   fst (addSpamRuleHandler listAdapter 0 (User ''a@x.com'' ''a@x.com'' ''mail_user'')
     ''a@x.com'' Whitelist ''a@b.com'' emptyWorld) = Json 500 ''Failed to add entry'' NoBody \<and>
   fst (addSpamRuleHandler listAdapter 1 (User ''a@x.com'' ''a@x.com'' ''mail_user'')
     ''a@x.com'' Whitelist ''a@b.com''
     (snd (addSpamRuleHandler listAdapter 0 (User ''a@x.com'' ''a@x.com'' ''mail_user'')
        ''a@x.com'' Whitelist ''a@b.com'' emptyWorld))) = Json 500 ''Failed to add entry'' NoBody \<and>
   calls (snd (addSpamRuleHandler listAdapter 1 (User ''a@x.com'' ''a@x.com'' ''mail_user'')
     ''a@x.com'' Whitelist ''a@b.com''
     (snd (addSpamRuleHandler listAdapter 0 (User ''a@x.com'' ''a@x.com'' ''mail_user'')
        ''a@x.com'' Whitelist ''a@b.com'' emptyWorld)))) = [] \<and>
   engine (snd (addSpamRuleHandler listAdapter 1 (User ''a@x.com'' ''a@x.com'' ''mail_user'')
     ''a@x.com'' Whitelist ''a@b.com''
     (snd (addSpamRuleHandler listAdapter 0 (User ''a@x.com'' ''a@x.com'' ''mail_user'')
        ''a@x.com'' Whitelist ''a@b.com'' emptyWorld)))) ''a@x.com'' Whitelist = []"
  by (simp add: add_always_fails emptyWorld_def valid_a_b)

subsection \<open>The loop of the bulk handler\<close>

text \<open>The adapter is called for the valid operations, in the order of the request, whatever
  the outcome of the other operations.\<close>

lemma bulkLoop_calls:
  "calls (snd (snd (bulkLoop A mailbox ops rs es w))) =
     calls w @ map (callOf mailbox) (filter (\<lambda>operation. isValid (validateSpamEntry (op_entry operation))) ops)"
proof (induction ops arbitrary: rs es w)
  case Nil
  show ?case by simp
next
  case (Cons operation rest)
  have r: "calls (snd (runOperation A mailbox operation w)) = calls w @ [callOf mailbox operation]"
    by (simp add: runOperation_def callOf_def callAdd_def callRemove_def split: prod.splits)
  show ?case
  proof (cases "isValid (validateSpamEntry (op_entry operation))")
    case False
    then show ?thesis by (simp add: Let_def Cons.IH)
  next
    case True
    obtain out w1 where o: "runOperation A mailbox operation w = (out, w1)"
      by (cases "runOperation A mailbox operation w")
    with r have c: "calls w1 = calls w @ [callOf mailbox operation]" by simp
    show ?thesis
      using True by (simp add: Let_def o Cons.IH c split: outcome.splits)
  qed
qed

text \<open>Every operation adds one item, to the results or to the errors.\<close>

lemma bulkLoop_lengths:
  "bulkLoop A mailbox ops rs es w = (rs1, es1, w1) \<Longrightarrow>
     length rs1 + length es1 = length rs + length es + length ops"
proof (induction ops arbitrary: rs es w)
  case Nil
  then show ?case by simp
next
  case (Cons operation rest)
  show ?case
  proof (cases "isValid (validateSpamEntry (op_entry operation))")
    case False
    with Cons.prems Cons.IH [of rs "es @ [BulkError (op_entry operation) ''Invalid entry format''
        (Some (errors (validateSpamEntry (op_entry operation))))]" w]
    show ?thesis by (simp add: Let_def)
  next
    case True
    obtain out w2 where o: "runOperation A mailbox operation w = (out, w2)"
      by (cases "runOperation A mailbox operation w")
    show ?thesis
    proof (cases out)
      case (Throws e)
      with True o Cons.prems Cons.IH [of rs "es @ [BulkError (op_entry operation) e None]" w2]
      show ?thesis by (simp add: Let_def)
    next
      case (Returns result)
      with True o Cons.prems
        Cons.IH [of "rs @ [BulkResult (op_action operation) (op_listType operation) (op_entry operation)]" es w2]
        Cons.IH [of rs "es @ [BulkError (op_entry operation) (errorOrDefault result) None]" w2]
      show ?thesis by (simp add: Let_def split: if_splits)
    qed
  qed
qed

text \<open>Three operations of which the second is malformed and the others succeed: two results,
  one error for the malformed entry, and both other operations are run.\<close>

lemma bulk_second_malformed:
  assumes "isValid (validateSpamEntry (op_entry o1))"
    and "\<not> isValid (validateSpamEntry (op_entry o2))"
    and "isValid (validateSpamEntry (op_entry o3))"
    and "runOperation A mailbox o1 w = (Returns r1, w1)" and "success r1"
    and "runOperation A mailbox o3 w1 = (Returns r3, w3)" and "success r3"
  shows "bulkLoop A mailbox [o1, o2, o3] [] [] w =
           ([BulkResult (op_action o1) (op_listType o1) (op_entry o1),
             BulkResult (op_action o3) (op_listType o3) (op_entry o3)],
            [BulkError (op_entry o2) ''Invalid entry format''
               (Some (errors (validateSpamEntry (op_entry o2))))],
            w3)"
  using assms by (simp add: Let_def)



end
